theory Spec2Isabelle
  imports Complex_Main
begin

section \<open>Data model of \<open>src/features/machine/selectors.js\<close>\<close>

text \<open>
  A vertex is a point of the plane (a Victor object in the source, always truthy).
  A layer is the plain object kept in the store; only the fields read by the selectors
  of this file are listed. Layer ids are the string keys of the \<open>layers\<close> object.
  The machine settings are opaque to the selectors and stay a type parameter.
\<close>

type_synonym vertex = "real \<times> real"

type_synonym layerId = string

record layer =
  usesMachine :: bool
  shouldCache :: bool
  dragging :: bool
  effect :: bool
  connectionMethod :: string
  autosize :: bool
  startingWidth :: real
  startingHeight :: real
  offsetX :: real
  offsetY :: real
  rotation :: real

text \<open>The object \<open>{ shape: layer, machine: machine }\<close> handed to the shape generator
  and to \<open>getCacheKey\<close>; \<open>None\<close> is JavaScript's \<open>null\<close>.\<close>

record 'm shape_state =
  shape :: layer
  machine :: "'m option"

text \<open>Every \<open>throw\<close> of the source is a value: reading a property of \<open>undefined\<close>,
  \<open>JSON.stringify\<close> failing, and a failure inside the machine geometry.\<close>

datatype error = TypeError | SerializationError | GeometryError

subsection \<open>The vertex cache (\<open>new LRUCache({ length: n => n.length, max: 500000 })\<close>)\<close>

text \<open>Modelled from the spec: the LRU store of section 4.1, which the source takes from
  the \<open>lru-cache\<close> package. Entries are kept most recently used first; the size of an
  entry is the length of its vertex list; an entry larger than the budget is not stored;
  least recently used entries are dropped until the budget is met.\<close>

type_synonym lru = "(string \<times> vertex list) list"

definition lru_max :: nat where
  "lru_max = 500000"

definition lru_length :: "lru \<Rightarrow> nat" where
  "lru_length c = sum_list (map (\<lambda>e. length (snd e)) c)"

definition lru_get :: "string \<Rightarrow> lru \<Rightarrow> vertex list option \<times> lru" where
  "lru_get k c =
     (case map_of c k of
        None \<Rightarrow> (None, c)
      | Some v \<Rightarrow> (Some v, (k, v) # filter (\<lambda>e. fst e \<noteq> k) c))"

function lru_trim :: "lru \<Rightarrow> lru" where
  "lru_trim c = (if lru_max < lru_length c \<and> c \<noteq> [] then lru_trim (butlast c) else c)"
  by pat_completeness auto
termination
  by (relation "measure length") auto

declare lru_trim.simps [simp del]

definition lru_set :: "string \<Rightarrow> vertex list \<Rightarrow> lru \<Rightarrow> lru" where
  "lru_set k v c =
     (if lru_max < length v then filter (\<lambda>e. fst e \<noteq> k) c
      else lru_trim ((k, v) # filter (\<lambda>e. fst e \<noteq> k) c))"

text \<open>The module-level mutable state of the raw stage: the cache, and a counter of the
  calls made to the external shape generator (\<open>metashape.getVertices\<close>).\<close>

record pipeline =
  cache :: lru
  genCalls :: nat

subsection \<open>\<open>getCacheKey\<close> and \<open>makeGetLayerMachine\<close>\<close>

text \<open>\<open>getCacheKey = state => JSON.stringify(state)\<close>. The serializer is the parameter
  \<open>stringify\<close>; \<open>None\<close> stands for the exception \<open>JSON.stringify\<close> throws on a value it
  cannot serialize. The source has no handler around the call.\<close>

definition getCacheKey :: "('s \<Rightarrow> string option) \<Rightarrow> 's \<Rightarrow> error + string" where
  "getCacheKey stringify st =
     (case stringify st of None \<Rightarrow> Inl SerializationError | Some k \<Rightarrow> Inr k)"

text \<open>The nodes of \<open>createSelector\<close> compare their arguments with \<open>===\<close>, which on objects
  is identity, not equality of contents. Where that comparison is made, an object of the
  store is its address together with its contents; two objects with equal contents and
  different addresses are different arguments. \<open>None\<close> is \<open>null\<close> or \<open>undefined\<close>.\<close>

type_synonym 'a obj = "nat \<times> 'a"

definition sameRef :: "'a obj option \<Rightarrow> 'a obj option \<Rightarrow> bool" where
  "sameRef a b =
     (case a of
        None \<Rightarrow> b = None
      | Some x \<Rightarrow> (case b of None \<Rightarrow> False | Some y \<Rightarrow> fst x = fst y))"

text \<open>Result function of \<open>makeGetLayerMachine\<close>:
  \<open>layer = layers[layerId]; return layer.usesMachine ? machine : null\<close>. It returns the
  machine object itself, not a copy.\<close>

definition getLayerMachine ::
  "(layerId \<rightharpoonup> layer obj) \<Rightarrow> 'm obj \<Rightarrow> layerId \<Rightarrow> error + 'm obj option" where
  "getLayerMachine layers m lid =
     (case layers lid of
        None \<Rightarrow> Inl TypeError
      | Some l \<Rightarrow> Inr (if usesMachine (snd l) then Some m else None))"

text \<open>Modelled from the spec: \<open>makeGetLayer\<close> of \<open>../layers/selectors\<close>, the lookup
  \<open>layers[layerId]\<close> (\<open>None\<close> is \<open>undefined\<close>).\<close>

definition getLayer :: "(layerId \<rightharpoonup> layer obj) \<Rightarrow> layerId \<Rightarrow> layer obj option" where
  "getLayer layers lid = layers lid"

subsection \<open>The raw stage: \<open>makeGetLayerVertices\<close>\<close>

text \<open>The result function (lines 51-76). \<open>getVertices\<close> is the external generator
  \<open>getShape(layer).getVertices\<close>. \<open>cache.get\<close> answers \<open>undefined\<close> on a miss and an array,
  which is truthy even when empty, on a hit.\<close>

definition layerVerticesFn ::
  "('m shape_state \<Rightarrow> string option) \<Rightarrow> ('m shape_state \<Rightarrow> vertex list) \<Rightarrow>
   layer \<Rightarrow> 'm option \<Rightarrow> pipeline \<Rightarrow> (error + vertex list) \<times> pipeline" where
  "layerVerticesFn stringify getVertices l m st =
     (let state = \<lparr>shape = l, machine = m\<rparr> in
      if shouldCache l then
        (case getCacheKey stringify state of
           Inl e \<Rightarrow> (Inl e, st)
         | Inr key \<Rightarrow>
             (case lru_get key (cache st) of
                (Some vertices, c) \<Rightarrow> (Inr vertices, st\<lparr>cache := c\<rparr>)
              | (None, c) \<Rightarrow>
                  (Inr (getVertices state),
                   st\<lparr>cache := lru_set key (getVertices state) c,
                      genCalls := Suc (genCalls st)\<rparr>)))
      else if \<not> dragging (shape state) \<and> effect (shape state) then (Inr [], st)
      else (Inr (getVertices state), st\<lparr>genCalls := Suc (genCalls st)\<rparr>))"

text \<open>The node \<open>createSelector\<close> builds around the result function: it keeps the last
  arguments and the last result, and runs the result function again only when an
  argument is not the one seen last (\<open>===\<close>). The arguments are the layer object and the
  machine object or \<open>null\<close>; the result function reads their contents.\<close>

record 'm vertices_node =
  lastArgs :: "(layer obj option \<times> 'm obj option) option"
  lastResult :: "vertex list"

definition argsUnchanged ::
  "'m vertices_node \<Rightarrow> layer obj option \<times> 'm obj option \<Rightarrow> bool" where
  "argsUnchanged node args =
     (case lastArgs node of
        None \<Rightarrow> False
      | Some prev \<Rightarrow> sameRef (fst prev) (fst args) \<and> sameRef (snd prev) (snd args))"

definition layerVerticesInputs ::
  "(layerId \<rightharpoonup> layer obj) \<Rightarrow> 'm obj \<Rightarrow> layerId \<Rightarrow>
   error + (layer obj option \<times> 'm obj option)" where
  "layerVerticesInputs layers m lid =
     (case getLayerMachine layers m lid of
        Inl e \<Rightarrow> Inl e
      | Inr lm \<Rightarrow> Inr (getLayer layers lid, lm))"

definition getLayerVertices ::
  "('m shape_state \<Rightarrow> string option) \<Rightarrow> ('m shape_state \<Rightarrow> vertex list) \<Rightarrow>
   (layerId \<rightharpoonup> layer obj) \<Rightarrow> 'm obj \<Rightarrow> layerId \<Rightarrow> 'm vertices_node \<Rightarrow> pipeline \<Rightarrow>
   (error + vertex list) \<times> 'm vertices_node \<times> pipeline" where
  "getLayerVertices stringify getVertices layers m lid node st =
     (case layerVerticesInputs layers m lid of
        Inl e \<Rightarrow> (Inl e, node, st)
      | Inr args \<Rightarrow>
          if argsUnchanged node args then (Inr (lastResult node), node, st)
          else
            (case fst args of
               None \<Rightarrow> (Inl TypeError, node, st)
             | Some l \<Rightarrow>
                 (case layerVerticesFn stringify getVertices (snd l)
                         (map_option snd (snd args)) st of
                    (Inl e, st') \<Rightarrow> (Inl e, node, st')
                  | (Inr vs, st') \<Rightarrow>
                      (Inr vs, \<lparr>lastArgs = Some args, lastResult = vs\<rparr>, st'))))"

text \<open>The cache key the raw stage computes for a layer of the store.\<close>

definition layerCacheKey ::
  "('m shape_state \<Rightarrow> string option) \<Rightarrow> (layerId \<rightharpoonup> layer obj) \<Rightarrow> 'm obj \<Rightarrow> layerId \<Rightarrow>
   error + string" where
  "layerCacheKey stringify layers m lid =
     (case layerVerticesInputs layers m lid of
        Inl e \<Rightarrow> Inl e
      | Inr args \<Rightarrow>
          (case fst args of
             None \<Rightarrow> Inl TypeError
           | Some l \<Rightarrow>
               getCacheKey stringify
                 \<lparr>shape = snd l, machine = map_option snd (snd args)\<rparr>))"

section \<open>The registry: \<open>getCachedSelector\<close>\<close>

text \<open>\<open>cachedSelectors\<close> is a two-level object keyed by \<open>fn.name\<close> and \<open>layerId\<close>. The
  makers this file hands to \<open>getCachedSelector\<close> have nine distinct names. A node is
  the object \<open>createSelector\<close> returns; its identity is a fresh number.\<close>

datatype maker =
  MakeGetLayer | MakeGetLayerIndex | MakeGetNextLayerId | MakeGetEffects
| MakeGetLayerMachine | MakeGetLayerVertices | MakeGetTransformedVertices
| MakeGetComputedVertices | MakeGetPreviewVertices

record registry =
  cachedSelectors :: "(maker \<times> layerId) \<rightharpoonup> nat"
  nextNode :: nat

definition createSelector :: "registry \<Rightarrow> nat \<times> registry" where
  "createSelector r = (nextNode r, r\<lparr>nextNode := Suc (nextNode r)\<rparr>)"

text \<open>Lines 164-174, with the maker \<open>fn\<close> as a function on the registry, since building
  a node looks its input nodes up in the same registry.\<close>

definition getCachedSelectorWith ::
  "(layerId \<Rightarrow> registry \<Rightarrow> nat \<times> registry) \<Rightarrow> maker \<Rightarrow> layerId \<Rightarrow> registry \<Rightarrow>
   nat \<times> registry" where
  "getCachedSelectorWith fn name lid r =
     (case cachedSelectors r (name, lid) of
        Some n \<Rightarrow> (n, r)
      | None \<Rightarrow>
          (case fn lid r of
             (n, r') \<Rightarrow> (n, r'\<lparr>cachedSelectors := (cachedSelectors r')((name, lid) \<mapsto> n)\<rparr>)))"

text \<open>A maker whose inputs are not registry nodes: \<open>makeGetLayerMachine\<close>, and (modelled
  from the spec, their code being in \<open>../layers/selectors\<close>) \<open>makeGetLayer\<close>,
  \<open>makeGetLayerIndex\<close>, \<open>makeGetNextLayerId\<close> and \<open>makeGetEffects\<close>.\<close>

definition makeLeaf :: "layerId \<Rightarrow> registry \<Rightarrow> nat \<times> registry" where
  "makeLeaf lid r = createSelector r"

definition makeGetLayerVertices :: "layerId \<Rightarrow> registry \<Rightarrow> nat \<times> registry" where
  "makeGetLayerVertices lid r =
     (let r1 = snd (getCachedSelectorWith makeLeaf MakeGetLayer lid r);
          r2 = snd (getCachedSelectorWith makeLeaf MakeGetLayerMachine lid r1)
      in createSelector r2)"

definition makeGetTransformedVertices :: "layerId \<Rightarrow> registry \<Rightarrow> nat \<times> registry" where
  "makeGetTransformedVertices lid r =
     (let r1 = snd (getCachedSelectorWith makeGetLayerVertices MakeGetLayerVertices lid r);
          r2 = snd (getCachedSelectorWith makeLeaf MakeGetLayer lid r1);
          r3 = snd (getCachedSelectorWith makeLeaf MakeGetEffects lid r2)
      in createSelector r3)"

definition makeGetComputedVertices :: "layerId \<Rightarrow> registry \<Rightarrow> nat \<times> registry" where
  "makeGetComputedVertices lid r =
     (let r1 = snd (getCachedSelectorWith makeGetTransformedVertices
                      MakeGetTransformedVertices lid r);
          r2 = snd (getCachedSelectorWith makeLeaf MakeGetLayerIndex lid r1);
          r3 = snd (getCachedSelectorWith makeLeaf MakeGetNextLayerId lid r2)
      in createSelector r3)"

definition makeGetPreviewVertices :: "layerId \<Rightarrow> registry \<Rightarrow> nat \<times> registry" where
  "makeGetPreviewVertices lid r =
     (let r1 = snd (getCachedSelectorWith makeGetTransformedVertices
                      MakeGetTransformedVertices lid r);
          r2 = snd (getCachedSelectorWith makeGetComputedVertices
                      MakeGetComputedVertices lid r1)
      in createSelector r2)"

fun makerFn :: "maker \<Rightarrow> layerId \<Rightarrow> registry \<Rightarrow> nat \<times> registry" where
  "makerFn MakeGetLayerVertices = makeGetLayerVertices"
| "makerFn MakeGetTransformedVertices = makeGetTransformedVertices"
| "makerFn MakeGetComputedVertices = makeGetComputedVertices"
| "makerFn MakeGetPreviewVertices = makeGetPreviewVertices"
| "makerFn _ = makeLeaf"

definition getCachedSelector :: "maker \<Rightarrow> layerId \<Rightarrow> registry \<Rightarrow> nat \<times> registry" where
  "getCachedSelector name lid r = getCachedSelectorWith (makerFn name) name lid r"

text \<open>Any run of further lookups, as the process makes them over its lifetime.\<close>

fun lookups :: "(maker \<times> layerId) list \<Rightarrow> registry \<Rightarrow> registry" where
  "lookups [] r = r"
| "lookups (c # cs) r = lookups cs (snd (getCachedSelector (fst c) (snd c) r))"

section \<open>The computed stage: \<open>makeGetComputedVertices\<close>\<close>

text \<open>Modelled from the spec: the selectors of \<open>../layers/selectors\<close> that feed the
  computed stage. The visible order is a sequence of layer ids; the index of a layer is
  its position there (\<open>-1\<close> when it is not visible), the next layer is the one that
  follows it, skipping nothing (\<open>null\<close> for the last one), and the number of visible
  layers is the length of the order.\<close>

fun findIndex :: "layerId list \<Rightarrow> layerId \<Rightarrow> nat option" where
  "findIndex [] lid = None"
| "findIndex (v # vs) lid =
     (if v = lid then Some 0 else map_option Suc (findIndex vs lid))"

definition getLayerIndex :: "layerId list \<Rightarrow> layerId \<Rightarrow> int" where
  "getLayerIndex vis lid = (case findIndex vis lid of None \<Rightarrow> - 1 | Some i \<Rightarrow> int i)"

definition getNextLayerId :: "layerId list \<Rightarrow> layerId \<Rightarrow> layerId option" where
  "getNextLayerId vis lid =
     (case findIndex vis lid of
        None \<Rightarrow> None
      | Some i \<Rightarrow> if Suc i < length vis then Some (vis ! Suc i) else None)"

definition getNumVisibleLayers :: "layerId list \<Rightarrow> int" where
  "getNumVisibleLayers vis = int (length vis)"

text \<open>The functions of \<open>./computer\<close> the stage calls, external to this file:
  \<open>polishVertices(vertices, machine, {start, end})\<close> and the two methods of
  \<open>getMachineInstance([], machine)\<close>. \<open>nearestPerimeterVertex\<close> receives
  \<open>vertices[vertices.length - 1]\<close>, which is \<open>undefined\<close> (\<open>None\<close>) for an empty array,
  and may fail.\<close>

record 'm computer =
  polishVertices :: "vertex list \<Rightarrow> 'm \<Rightarrow> bool \<Rightarrow> bool \<Rightarrow> vertex list"
  nearestPerimeterVertex :: "'m \<Rightarrow> vertex option \<Rightarrow> error + vertex"
  tracePerimeter :: "'m \<Rightarrow> vertex \<Rightarrow> vertex \<Rightarrow> vertex list"

definition lastVertex :: "vertex list \<Rightarrow> vertex option" where
  "lastVertex vertices = (if vertices = [] then None else Some (last vertices))"

text \<open>Lines 106-130: the path of the layer before \<open>polishVertices\<close>. \<open>nextComputed\<close> is
  the selector \<open>getCachedSelector(makeGetComputedVertices, nextLayerId)\<close> applied to the
  state; it answers \<open>None\<close> when its evaluation does not return. An id is falsy exactly
  when it is the empty string.\<close>

definition connectVertices ::
  "'m computer \<Rightarrow> (layerId \<Rightarrow> (error + vertex list) option) \<Rightarrow> vertex list \<Rightarrow> int \<Rightarrow>
   layerId option \<Rightarrow> int \<Rightarrow> (layerId \<rightharpoonup> layer) \<Rightarrow> 'm \<Rightarrow> layerId \<Rightarrow>
   (error + vertex list) option" where
  "connectVertices cpu nextComputed vertices layerIndex nextLayerId numLayers layers m lid =
     (if layerIndex < numLayers - 1 then
        (case nextLayerId of
           None \<Rightarrow> Some (Inr vertices)
         | Some nid \<Rightarrow>
             (case (if nid = [] then None else layers nid) of
                None \<Rightarrow> Some (Inr vertices)
              | Some nextLayer \<Rightarrow>
                  if dragging nextLayer then Some (Inr vertices)
                  else
                    (case nextComputed nid of
                       None \<Rightarrow> None
                     | Some (Inl e) \<Rightarrow> Some (Inl e)
                     | Some (Inr []) \<Rightarrow> Some (Inr vertices)
                     | Some (Inr (end # rest)) \<Rightarrow>
                         (case layers lid of
                            None \<Rightarrow> Some (Inl TypeError)
                          | Some l \<Rightarrow>
                              if connectionMethod l = ''along perimeter'' then
                                (case nearestPerimeterVertex cpu m (lastVertex vertices) of
                                   Inl e \<Rightarrow> Some (Inl e)
                                 | Inr startPerimeter \<Rightarrow>
                                     (case nearestPerimeterVertex cpu m (Some end) of
                                        Inl e \<Rightarrow> Some (Inl e)
                                      | Inr endPerimeter \<Rightarrow>
                                          Some (Inr (vertices @ [startPerimeter]
                                            @ tracePerimeter cpu m startPerimeter endPerimeter
                                            @ [endPerimeter, end]))))
                              else Some (Inr (vertices @ [end]))))))
      else Some (Inr vertices))"

text \<open>The result function (lines 105-136): the connected path, polished with the flags
  \<open>start: layerIndex === 0\<close> and \<open>end: layerIndex === numLayers - 1\<close>.\<close>

definition computedVerticesFn ::
  "'m computer \<Rightarrow> (layerId \<Rightarrow> (error + vertex list) option) \<Rightarrow> vertex list \<Rightarrow> int \<Rightarrow>
   layerId option \<Rightarrow> int \<Rightarrow> (layerId \<rightharpoonup> layer) \<Rightarrow> 'm \<Rightarrow> layerId \<Rightarrow>
   (error + vertex list) option" where
  "computedVerticesFn cpu nextComputed vertices layerIndex nextLayerId numLayers layers m lid =
     (case connectVertices cpu nextComputed vertices layerIndex nextLayerId numLayers
             layers m lid of
        None \<Rightarrow> None
      | Some (Inl e) \<Rightarrow> Some (Inl e)
      | Some (Inr vs) \<Rightarrow>
          Some (Inr (polishVertices cpu vs m (layerIndex = 0) (layerIndex = numLayers - 1))))"

text \<open>The selector of a layer applied to a state. \<open>transformed lid\<close> is the value of the
  transformed-stage node of the layer in that state. The state rebuilt for the next
  layer, \<open>{ layers: layers, machine: machine }\<close>, has the same layers and machine, hence
  the same visible order. The first argument bounds the depth of the nested selector
  calls: \<open>None\<close> means the bound was reached before the evaluation returned.\<close>

fun computedVertices ::
  "nat \<Rightarrow> 'm computer \<Rightarrow> (layerId \<Rightarrow> error + vertex list) \<Rightarrow> layerId list \<Rightarrow>
   (layerId \<rightharpoonup> layer) \<Rightarrow> 'm \<Rightarrow> layerId \<Rightarrow> (error + vertex list) option" where
  "computedVertices 0 cpu transformed vis layers m lid = None"
| "computedVertices (Suc depth) cpu transformed vis layers m lid =
     (case transformed lid of
        Inl e \<Rightarrow> Some (Inl e)
      | Inr vertices \<Rightarrow>
          computedVerticesFn cpu (computedVertices depth cpu transformed vis layers m)
            vertices (getLayerIndex vis lid) (getNextLayerId vis lid)
            (getNumVisibleLayers vis) layers m lid)"

section \<open>The aggregate views\<close>

text \<open>\<open>getVertexOffsets\<close> (lines 193-206): the \<open>forEach\<close> is a recursion over the visible
  ids that carries \<open>offsets\<close> and \<open>offset\<close>. \<open>computed lid\<close> is the value of the
  computed-stage selector of the layer; an exception it throws leaves the loop.\<close>

fun offsetsLoop ::
  "(layerId \<Rightarrow> error + vertex list) \<Rightarrow> layerId list \<Rightarrow> (layerId \<rightharpoonup> nat) \<Rightarrow> nat \<Rightarrow>
   error + (layerId \<rightharpoonup> nat)" where
  "offsetsLoop computed [] offsets offset = Inr offsets"
| "offsetsLoop computed (lid # ids) offsets offset =
     (case computed lid of
        Inl e \<Rightarrow> Inl e
      | Inr vertices \<Rightarrow>
          offsetsLoop computed ids (offsets(lid \<mapsto> offset)) (offset + length vertices + 1))"

definition getVertexOffsets ::
  "(layerId \<Rightarrow> error + vertex list) \<Rightarrow> layerId list \<Rightarrow> error + (layerId \<rightharpoonup> nat)" where
  "getVertexOffsets computed vis = offsetsLoop computed vis Map.empty 0"

text \<open>\<open>getSliderColors\<close> (lines 240-262). \<open>darkenHex\<close> is
  \<open>Color('yellow').darken(amount).hex()\<close> of the \<open>color\<close> package; its argument is
  \<open>None\<close> when the amount is not a finite number, which happens when \<open>end = start\<close>
  (JavaScript divides by zero without failing). The loop
  \<open>for (let i = end; i >= start; i--)\<close> is the recursion \<open>colorsLoop\<close>.\<close>

definition colorStep :: "int \<Rightarrow> int \<Rightarrow> real option" where
  "colorStep start end =
     (if end = start then None else Some (3 / 8 / real_of_int (end - start)))"

definition darkenAmount :: "int \<Rightarrow> int \<Rightarrow> int \<Rightarrow> real option" where
  "darkenAmount start end i =
     map_option (\<lambda>step. step * real_of_int (end - i)) (colorStep start end)"

function colorsLoop ::
  "(real option \<Rightarrow> string) \<Rightarrow> int \<Rightarrow> int \<Rightarrow> int \<Rightarrow> (int \<rightharpoonup> string) \<Rightarrow> (int \<rightharpoonup> string)" where
  "colorsLoop darkenHex start end i colors =
     (if start \<le> i
      then colorsLoop darkenHex start end (i - 1)
             (colors(i \<mapsto> darkenHex (darkenAmount start end i)))
      else colors)"
  by pat_completeness auto
termination
  by (relation "measure (\<lambda>(d, start, e, i, c). nat (i - start + 1))") auto

declare colorsLoop.simps [simp del]

text \<open>When \<open>offsets[layerId]\<close> is \<open>undefined\<close>, \<open>end\<close> is \<open>NaN\<close>, the loop condition is
  false at once and the result is the empty object.\<close>

definition getSliderColors ::
  "(vertex list \<Rightarrow> real \<Rightarrow> int \<times> int) \<Rightarrow> (real option \<Rightarrow> string) \<Rightarrow> vertex list \<Rightarrow> real \<Rightarrow>
   vertex list \<Rightarrow> (layerId \<rightharpoonup> nat) \<Rightarrow> layerId \<Rightarrow> (int \<rightharpoonup> string)" where
  "getSliderColors getSliderBounds darkenHex vertices sliderValue layerVertices offsets lid =
     (if 0 < sliderValue then
        (case getSliderBounds vertices sliderValue of
           (start, end) \<Rightarrow> colorsLoop darkenHex start end end Map.empty)
      else
        (case offsets lid of
           None \<Rightarrow> Map.empty
         | Some start \<Rightarrow>
             colorsLoop darkenHex (int start) (int start + int (length layerVertices))
               (int start + int (length layerVertices)) Map.empty))"

section \<open>The preview stage: \<open>makeGetPreviewVertices\<close>\<close>

text \<open>\<open>offset(vertex, dx, dy)\<close> and \<open>rotate(vertex, angle)\<close> come from
  \<open>../../common/geometry\<close> and are parameters. The result function is lines 149-159.\<close>

definition konvaScale :: "layer \<Rightarrow> real" where
  "konvaScale l = (if autosize l then 5 else 1)"

definition konvaDeltaX :: "layer \<Rightarrow> real" where
  "konvaDeltaX l = (konvaScale l - 1) / 2 * startingWidth l"

definition konvaDeltaY :: "layer \<Rightarrow> real" where
  "konvaDeltaY l = (konvaScale l - 1) / 2 * startingHeight l"

definition previewVertex ::
  "(vertex \<Rightarrow> real \<Rightarrow> real \<Rightarrow> vertex) \<Rightarrow> (vertex \<Rightarrow> real \<Rightarrow> vertex) \<Rightarrow> layer \<Rightarrow> vertex \<Rightarrow> vertex" where
  "previewVertex offs rot l vertex =
     offs (rot (offs vertex (- offsetX l) (- offsetY l)) (rotation l))
       (konvaDeltaX l) (- konvaDeltaY l)"

definition previewVerticesFn ::
  "(vertex \<Rightarrow> real \<Rightarrow> real \<Rightarrow> vertex) \<Rightarrow> (vertex \<Rightarrow> real \<Rightarrow> vertex) \<Rightarrow>
   (layerId \<rightharpoonup> layer) \<Rightarrow> vertex list \<Rightarrow> vertex list \<Rightarrow> layerId \<Rightarrow> error + vertex list" where
  "previewVerticesFn offs rot layers transformedVs computedVs lid =
     (case layers lid of
        None \<Rightarrow> Inl TypeError
      | Some l \<Rightarrow>
          (let vertices = (if dragging l then transformedVs else computedVs)
           in Inr (map (previewVertex offs rot l) vertices)))"

text \<open>The selector: both input selectors are evaluated before the result function runs,
  so an exception of either stage is the selector's.\<close>

definition getPreviewVertices ::
  "(vertex \<Rightarrow> real \<Rightarrow> real \<Rightarrow> vertex) \<Rightarrow> (vertex \<Rightarrow> real \<Rightarrow> vertex) \<Rightarrow>
   (layerId \<rightharpoonup> layer) \<Rightarrow> (error + vertex list) \<Rightarrow> (error + vertex list) \<Rightarrow> layerId \<Rightarrow>
   error + vertex list" where
  "getPreviewVertices offs rot layers transformed computed lid =
     (case transformed of
        Inl e \<Rightarrow> Inl e
      | Inr transformedVs \<Rightarrow>
          (case computed of
             Inl e \<Rightarrow> Inl e
           | Inr computedVs \<Rightarrow>
               previewVerticesFn offs rot layers transformedVs computedVs lid))"

section \<open>A concrete layer\<close>

text \<open>A layer that neither caches nor uses the machine, for evaluating the selectors.\<close>

definition baseLayer :: layer where
  "baseLayer = \<lparr>usesMachine = False, shouldCache = False, dragging = False, effect = False,
     connectionMethod = ''line'', autosize = False, startingWidth = 10, startingHeight = 20,
     offsetX = 1, offsetY = 2, rotation = 0\<rparr>"


text \<open>A serializer that always throws, one that always succeeds, and a generator that
  draws one segment.\<close>

definition failingStringify :: "nat shape_state \<Rightarrow> string option" where
  "failingStringify s = None"

definition constStringify :: "nat shape_state \<Rightarrow> string option" where
  "constStringify s = Some ''k''"

definition segmentShape :: "nat shape_state \<Rightarrow> vertex list" where
  "segmentShape s = [(0, 0), (1, 0)]"

section \<open>Registry invariants and a concrete registry\<close>

text \<open>A maker keeps the registry when building a node removes or replaces no entry.\<close>

definition keeps :: "(layerId \<Rightarrow> registry \<Rightarrow> nat \<times> registry) \<Rightarrow> bool" where
  "keeps fn = (\<forall>lid r key n. cachedSelectors r key = Some n \<longrightarrow>
                 cachedSelectors (snd (fn lid r)) key = Some n)"

definition emptyRegistry :: registry where
  "emptyRegistry = \<lparr>cachedSelectors = Map.empty, nextNode = 0\<rparr>"

section \<open>A concrete machine and drawing\<close>

text \<open>A machine whose perimeter is the horizontal line at the height given by the
  settings; polishing adds the origin at the start of the first path and at the end of the
  last one. The drawing has the square \<open>a\<close> followed by the point \<open>b\<close>.\<close>

definition lineComputer :: "nat computer" where
  "lineComputer =
     \<lparr>polishVertices = (\<lambda>vs m s e. (if s then [(0, 0)] else []) @ vs @ (if e then [(0, 0)] else [])),
      nearestPerimeterVertex =
        (\<lambda>m v. case v of None \<Rightarrow> Inl GeometryError | Some p \<Rightarrow> Inr (fst p, real m)),
      tracePerimeter = (\<lambda>m p q. [((fst p + fst q) / 2, real m)])\<rparr>"

definition squareAndPoint :: "layerId \<Rightarrow> error + vertex list" where
  "squareAndPoint lid =
     (if lid = ''a'' then Inr [(0, 0), (1, 0), (1, 1), (0, 1)] else Inr [(5, 5)])"

text \<open>A drawing whose first layer is an open zigzag: its vertices lie above four
  different points of the perimeter.\<close>

definition zigzagAndPoint :: "layerId \<Rightarrow> error + vertex list" where
  "zigzagAndPoint lid =
     (if lid = ''a'' then Inr [(0, 0), (1, 2), (2, 1), (3, 4)] else Inr [(5, 5)])"

definition twoLayers :: "layerId \<rightharpoonup> layer" where
  "twoLayers = [''a'' \<mapsto> baseLayer, ''b'' \<mapsto> baseLayer]"

definition twoLayersPerimeter :: "layerId \<rightharpoonup> layer" where
  "twoLayersPerimeter =
     [''a'' \<mapsto> baseLayer\<lparr>connectionMethod := ''along perimeter''\<rparr>, ''b'' \<mapsto> baseLayer]"

text \<open>The computed paths of the square and the point: the square ends with the stitch.\<close>

definition computedAB :: "layerId \<Rightarrow> error + vertex list" where
  "computedAB lid = 
     (if lid = ''a'' then Inr [(0, 0), (1, 0), (1, 1), (0, 1), (5, 5)]
      else Inr [(5, 5)])"

text \<open>Stand-ins for the slider bounds resolver and the color library, and a layer of four
  preview vertices that starts at index 2 of a flattened path of ten points.\<close>

definition zeroBounds :: "vertex list \<Rightarrow> real \<Rightarrow> int \<times> int" where
  "zeroBounds vertices sliderValue = (0, 0)"

definition yellowHex :: "real option \<Rightarrow> string" where
  "yellowHex amount = ''#FFFF00''"

definition tenPoints :: "vertex list" where
  "tenPoints = replicate 10 (0, 0)"

definition fourPoints :: "vertex list" where
  "fourPoints = [(0, 0), (1, 0), (1, 1), (0, 1)]"

text \<open>A translation and a rotation about the origin (angle in radians), standing in for
  \<open>offset\<close> and \<open>rotate\<close> of the geometry module.\<close>

definition offsetVertex :: "vertex \<Rightarrow> real \<Rightarrow> real \<Rightarrow> vertex" where
  "offsetVertex v dx dy = (fst v + dx, snd v + dy)"

definition rotateVertex :: "vertex \<Rightarrow> real \<Rightarrow> vertex" where
  "rotateVertex v a = (fst v * cos a - snd v * sin a, fst v * sin a + snd v * cos a)"

section \<open>Properties of the raw stage\<close>

lemma getLayerMachine_no_machine:
  "layers lid = Some l \<Longrightarrow> \<not> usesMachine (snd l) \<Longrightarrow>
   getLayerMachine layers m lid = Inr None"
  by (simp add: getLayerMachine_def)

lemma layerVerticesInputs_no_machine:
  "layers lid = Some l \<Longrightarrow> \<not> usesMachine (snd l) \<Longrightarrow>
   layerVerticesInputs layers m lid = Inr (Some l, None)"
  by (simp add: layerVerticesInputs_def getLayerMachine_no_machine getLayer_def)

lemma sameRef_refl: "sameRef a a"
  by (simp add: sameRef_def split: option.splits)

text \<open>Claim C5. A layer with \<open>shouldCache = false\<close>: the raw stage returns the empty list
  when the layer is not dragged and has an effect; otherwise it returns what the generator
  returns, after one call to it. In both cases the vertex cache is left as it was: it is
  neither read (a read would move the entry to the front) nor written, and the serializer
  is not called.\<close>

theorem raw_stage_uncached:
  assumes "\<not> shouldCache l"
  shows "layerVerticesFn stringify getVertices l m st =
     (if \<not> dragging l \<and> effect l then (Inr [], st)
      else (Inr (getVertices \<lparr>shape = l, machine = m\<rparr>), st\<lparr>genCalls := Suc (genCalls st)\<rparr>))
   \<and> cache (snd (layerVerticesFn stringify getVertices l m st)) = cache st"
  using assms by (simp add: layerVerticesFn_def)

theorem raw_stage_uncached_witness:
  "\<not> shouldCache baseLayer
   \<and> layerVerticesFn constStringify segmentShape baseLayer (Some (7::nat))
         \<lparr>cache = [(''k'', [(5, 5)])], genCalls = 0\<rparr>
       = (Inr [(0, 0), (1, 0)], \<lparr>cache = [(''k'', [(5, 5)])], genCalls = 1\<rparr>)"
  using raw_stage_uncached [of baseLayer constStringify segmentShape "Some (7::nat)"
          "\<lparr>cache = [(''k'', [(5, 5)])], genCalls = 0\<rparr>"]
  by (simp add: baseLayer_def failingStringify_def constStringify_def segmentShape_def)

text \<open>Claim C9, as stated, fails: when the snapshot of a cacheable layer cannot be
  serialized, the exception of \<open>JSON.stringify\<close> leaves the raw stage; the generator is
  not called and no vertices are returned.\<close>

theorem raw_stage_fallback_counterexample:
  "shouldCache (baseLayer\<lparr>shouldCache := True\<rparr>)
   \<and> fst (layerVerticesFn failingStringify segmentShape (baseLayer\<lparr>shouldCache := True\<rparr>)
            None \<lparr>cache = [], genCalls = 0\<rparr>)
       \<noteq> Inr (segmentShape \<lparr>shape = baseLayer\<lparr>shouldCache := True\<rparr>, machine = None\<rparr>)
   \<and> genCalls (snd (layerVerticesFn failingStringify segmentShape
            (baseLayer\<lparr>shouldCache := True\<rparr>) None \<lparr>cache = [], genCalls = 0\<rparr>)) = 0"
  by (simp add: layerVerticesFn_def getCacheKey_def baseLayer_def failingStringify_def segmentShape_def)

text \<open>Claim C9, amended. For a cacheable layer whose snapshot cannot be serialized, the raw
  stage fails with the serialization error; the cache and the generator are untouched.\<close>

theorem raw_stage_serialization_failure:
  assumes "shouldCache l" and "stringify \<lparr>shape = l, machine = m\<rparr> = None"
  shows "layerVerticesFn stringify getVertices l m st = (Inl SerializationError, st)"
  using assms by (simp add: layerVerticesFn_def getCacheKey_def)

theorem raw_stage_serialization_failure_witness:
  "shouldCache (baseLayer\<lparr>shouldCache := True\<rparr>)
   \<and> layerVerticesFn failingStringify segmentShape (baseLayer\<lparr>shouldCache := True\<rparr>)
         None \<lparr>cache = [], genCalls = 0\<rparr>
       = (Inl SerializationError, \<lparr>cache = [], genCalls = 0\<rparr>)"
  using raw_stage_serialization_failure [of "baseLayer\<lparr>shouldCache := True\<rparr>" failingStringify
          None segmentShape "\<lparr>cache = [], genCalls = 0\<rparr>"]
  by (simp add: baseLayer_def failingStringify_def constStringify_def segmentShape_def)

lemma getLayerVertices_memo:
  assumes "getLayerVertices stringify gen layers m lid node st = (Inr vs, node', st')"
      and "layerVerticesInputs layers m lid = Inr args"
  shows "argsUnchanged node' args \<and> lastResult node' = vs"
  using assms
  by (auto simp: getLayerVertices_def argsUnchanged_def sameRef_refl
           split: if_splits option.splits sum.splits prod.splits)

text \<open>Claim C1. For a layer with \<open>usesMachine = false\<close>, two states that hold the same layer
  object and any two machine objects: the machine input of the raw stage is \<open>null\<close> in
  both, the cache keys are the same, the raw stage started from the same node and cache
  gives the same result under either state, and evaluating it under the second state
  after the first returns the remembered vertices without running the result function
  again: the node, the cache and the count of generator calls do not change.\<close>

theorem machine_independence:
  assumes "layers1 lid = Some l" and "layers2 lid = Some l" and "\<not> usesMachine (snd l)"
      and "getLayerVertices stringify gen layers1 m1 lid node st = (Inr vs, node', st')"
  shows "getLayerMachine layers1 m1 lid = Inr None
       \<and> getLayerMachine layers2 m2 lid = Inr None
       \<and> layerCacheKey stringify layers1 m1 lid = layerCacheKey stringify layers2 m2 lid
       \<and> getLayerVertices stringify gen layers2 m2 lid node st = (Inr vs, node', st')
       \<and> getLayerVertices stringify gen layers2 m2 lid node' st' = (Inr vs, node', st')"
proof -
  have i1: "layerVerticesInputs layers1 m1 lid = Inr (Some l, None)"
    using assms(1,3) by (rule layerVerticesInputs_no_machine)
  have i2: "layerVerticesInputs layers2 m2 lid = Inr (Some l, None)"
    using assms(2,3) by (rule layerVerticesInputs_no_machine)
  have k: "layerCacheKey stringify layers1 m1 lid = layerCacheKey stringify layers2 m2 lid"
    by (simp add: layerCacheKey_def i1 i2)
  have same: "getLayerVertices stringify gen layers2 m2 lid node st
            = getLayerVertices stringify gen layers1 m1 lid node st"
    by (simp add: getLayerVertices_def i1 i2)
  have memo: "argsUnchanged node' (Some l, None) \<and> lastResult node' = vs"
    using getLayerVertices_memo [OF assms(4) i1] .
  have again: "getLayerVertices stringify gen layers2 m2 lid node' st' = (Inr vs, node', st')"
    using memo by (simp add: getLayerVertices_def i2)
  show ?thesis
    using assms(1,2,3) k same assms(4) again
    by (simp add: getLayerMachine_no_machine)
qed

lemmas raw_stage_defs = getLayerVertices_def layerVerticesInputs_def getLayerMachine_def
  getLayer_def argsUnchanged_def sameRef_def layerVerticesFn_def baseLayer_def
  segmentShape_def

text \<open>The layer \<open>baseLayer\<close> is not cached, so only the node stands between a second
  evaluation and the generator. The machine object is replaced by another one with other
  settings; the layer object stays.\<close>

theorem machine_independence_witness:
  "getLayerVertices constStringify segmentShape [''a'' \<mapsto> (1, baseLayer)] (10, 1) ''a''
       \<lparr>lastArgs = None, lastResult = []\<rparr> \<lparr>cache = [], genCalls = 0\<rparr>
     = (Inr [(0, 0), (1, 0)],
        \<lparr>lastArgs = Some (Some (1, baseLayer), None), lastResult = [(0, 0), (1, 0)]\<rparr>,
        \<lparr>cache = [], genCalls = 1\<rparr>)
   \<and> getLayerVertices constStringify segmentShape [''a'' \<mapsto> (1, baseLayer)] (11, 2) ''a''
       \<lparr>lastArgs = Some (Some (1, baseLayer), None), lastResult = [(0, 0), (1, 0)]\<rparr>
       \<lparr>cache = [], genCalls = 1\<rparr>
     = (Inr [(0, 0), (1, 0)],
        \<lparr>lastArgs = Some (Some (1, baseLayer), None), lastResult = [(0, 0), (1, 0)]\<rparr>,
        \<lparr>cache = [], genCalls = 1\<rparr>)"
proof -
  have run: "getLayerVertices constStringify segmentShape [''a'' \<mapsto> (1, baseLayer)] (10, 1) ''a''
       \<lparr>lastArgs = None, lastResult = []\<rparr> \<lparr>cache = [], genCalls = 0\<rparr>
     = (Inr [(0, 0), (1, 0)],
        \<lparr>lastArgs = Some (Some (1, baseLayer), None), lastResult = [(0, 0), (1, 0)]\<rparr>,
        \<lparr>cache = [], genCalls = 1\<rparr>)"
    by (simp add: raw_stage_defs)
  have l: "[''a'' \<mapsto> (1::nat, baseLayer)] ''a'' = Some (1, baseLayer)"
    by simp
  have u: "\<not> usesMachine (snd (1::nat, baseLayer))"
    by (simp add: baseLayer_def)
  show ?thesis
    using machine_independence [where ?layers1.0 = "[''a'' \<mapsto> (1, baseLayer)]"
        and ?layers2.0 = "[''a'' \<mapsto> (1, baseLayer)]" and lid = "''a''"
        and l = "(1, baseLayer)" and ?m1.0 = "(10, 1)" and ?m2.0 = "(11, 2)", OF l l u run] run
    by simp
qed

text \<open>The same second evaluation when the layer was replaced by a new object with the same
  contents: the node sees another argument and the generator runs a second time.\<close>

lemma new_layer_object_regenerates:
  "getLayerVertices constStringify segmentShape [''a'' \<mapsto> (2, baseLayer)] (11, 2) ''a''
       \<lparr>lastArgs = Some (Some (1, baseLayer), None), lastResult = [(0, 0), (1, 0)]\<rparr>
       \<lparr>cache = [], genCalls = 1\<rparr>
     = (Inr [(0, 0), (1, 0)],
        \<lparr>lastArgs = Some (Some (2, baseLayer), None), lastResult = [(0, 0), (1, 0)]\<rparr>,
        \<lparr>cache = [], genCalls = 2\<rparr>)"
  by (simp add: raw_stage_defs)

section \<open>Properties of the registry\<close>

lemma getCachedSelectorWith_stored:
  "getCachedSelectorWith fn name lid r = (n, r') \<Longrightarrow>
   cachedSelectors r' (name, lid) = Some n"
  by (auto simp: getCachedSelectorWith_def split: option.splits prod.splits)

lemma getCachedSelectorWith_hit:
  "cachedSelectors (r::registry) (name, lid) = Some n \<Longrightarrow>
   getCachedSelectorWith fn name lid r = (n, r)"
  by (simp add: getCachedSelectorWith_def)

lemma keeps_makeLeaf: "keeps makeLeaf"
  by (simp add: keeps_def makeLeaf_def createSelector_def)

lemma keeps_getCachedSelectorWith:
  assumes "keeps fn"
  shows "keeps (getCachedSelectorWith fn name)"
  unfolding keeps_def
proof (intro allI impI)
  fix lid and r :: registry and key n
  assume h: "cachedSelectors r key = Some n"
  show "cachedSelectors (snd (getCachedSelectorWith fn name lid r)) key = Some n"
  proof (cases "cachedSelectors r (name, lid)")
    case (Some k)
    then show ?thesis using h by (simp add: getCachedSelectorWith_def)
  next
    case None
    then have ne: "key \<noteq> (name, lid)" using h by auto
    have "cachedSelectors (snd (fn lid r)) key = Some n"
      using assms h unfolding keeps_def by blast
    then show ?thesis
      using None ne by (auto simp: getCachedSelectorWith_def split: prod.splits)
  qed
qed

lemma keepsD: "keeps fn \<Longrightarrow> cachedSelectors (r::registry) key = Some n \<Longrightarrow>
   cachedSelectors (snd (fn lid r)) key = Some n"
  unfolding keeps_def by blast

lemma keeps_createSelector:
  "cachedSelectors (r::registry) key = Some n \<Longrightarrow>
   cachedSelectors (snd (createSelector r)) key = Some n"
  by (simp add: createSelector_def)

lemma keeps_makeGetLayerVertices: "keeps makeGetLayerVertices"
  unfolding keeps_def makeGetLayerVertices_def Let_def
  by (intro allI impI keeps_createSelector keepsD [OF keeps_getCachedSelectorWith [OF keeps_makeLeaf]])

lemma keeps_makeGetTransformedVertices: "keeps makeGetTransformedVertices"
  unfolding keeps_def makeGetTransformedVertices_def Let_def
  by (intro allI impI keeps_createSelector
        keepsD [OF keeps_getCachedSelectorWith [OF keeps_makeLeaf]]
        keepsD [OF keeps_getCachedSelectorWith [OF keeps_makeGetLayerVertices]])

lemma keeps_makeGetComputedVertices: "keeps makeGetComputedVertices"
  unfolding keeps_def makeGetComputedVertices_def Let_def
  by (intro allI impI keeps_createSelector
        keepsD [OF keeps_getCachedSelectorWith [OF keeps_makeLeaf]]
        keepsD [OF keeps_getCachedSelectorWith [OF keeps_makeGetTransformedVertices]])

lemma keeps_makeGetPreviewVertices: "keeps makeGetPreviewVertices"
  unfolding keeps_def makeGetPreviewVertices_def Let_def
  by (intro allI impI keeps_createSelector
        keepsD [OF keeps_getCachedSelectorWith [OF keeps_makeGetComputedVertices]]
        keepsD [OF keeps_getCachedSelectorWith [OF keeps_makeGetTransformedVertices]])

lemma keeps_makerFn: "keeps (makerFn name)"
  by (cases name)
     (simp_all add: keeps_makeLeaf keeps_makeGetLayerVertices keeps_makeGetTransformedVertices
        keeps_makeGetComputedVertices keeps_makeGetPreviewVertices)

lemma getCachedSelector_keeps:
  "cachedSelectors (r::registry) key = Some n \<Longrightarrow>
   cachedSelectors (snd (getCachedSelector name lid r)) key = Some n"
  using keepsD [OF keeps_getCachedSelectorWith [OF keeps_makerFn]]
  by (simp add: getCachedSelector_def)

lemma lookups_keeps:
  "cachedSelectors (r::registry) key = Some n \<Longrightarrow>
   cachedSelectors (lookups cs r) key = Some n"
  by (induction cs arbitrary: r) (simp_all add: getCachedSelector_keeps)

text \<open>Claim C6. A lookup in the registry returns a node; the same lookup made again, at
  once or after any run of other lookups, returns that same node and creates nothing:
  the registry holds one node for a pair of maker and layer id from the first lookup on.\<close>

theorem getCachedSelector_same_node:
  assumes "getCachedSelector name lid r = (n, r')"
  shows "getCachedSelector name lid r' = (n, r')
       \<and> getCachedSelector name lid (lookups cs r') = (n, lookups cs r')"
proof -
  have "cachedSelectors r' (name, lid) = Some n"
    using assms by (simp add: getCachedSelector_def getCachedSelectorWith_stored)
  then show ?thesis
    by (simp add: getCachedSelector_def getCachedSelectorWith_hit lookups_keeps)
qed

lemmas registry_defs = getCachedSelector_def getCachedSelectorWith_def makeLeaf_def
  makeGetLayerVertices_def makeGetTransformedVertices_def makeGetComputedVertices_def
  makeGetPreviewVertices_def createSelector_def emptyRegistry_def

theorem getCachedSelector_same_node_witness:
  "fst (getCachedSelector MakeGetPreviewVertices ''a'' emptyRegistry) = 8
   \<and> fst (getCachedSelector MakeGetPreviewVertices ''a''
          (lookups [(MakeGetComputedVertices, ''b''), (MakeGetPreviewVertices, ''a'')]
             (snd (getCachedSelector MakeGetPreviewVertices ''a'' emptyRegistry)))) = 8"
proof -
  have first: "fst (getCachedSelector MakeGetPreviewVertices ''a'' emptyRegistry) = 8"
    by (simp add: registry_defs)
  have run: "getCachedSelector MakeGetPreviewVertices ''a'' emptyRegistry
           = (8, snd (getCachedSelector MakeGetPreviewVertices ''a'' emptyRegistry))"
    using first by (metis prod.collapse)
  show ?thesis
    using getCachedSelector_same_node [OF run,
            of "[(MakeGetComputedVertices, ''b''), (MakeGetPreviewVertices, ''a'')]"] first
    by simp
qed

section \<open>Properties of the computed stage\<close>

lemma findIndex_distinct:
  "distinct vis \<Longrightarrow> i < length vis \<Longrightarrow> findIndex vis (vis ! i) = Some i"
proof (induction vis arbitrary: i)
  case Nil
  then show ?case by simp
next
  case (Cons v vs)
  show ?case
  proof (cases i)
    case 0
    then show ?thesis by simp
  next
    case (Suc j)
    then have "j < length vs" and "vs ! j \<in> set vs" using Cons.prems by auto
    then show ?thesis using Cons Suc by auto
  qed
qed

lemma getLayerIndex_distinct:
  "distinct vis \<Longrightarrow> i < length vis \<Longrightarrow> getLayerIndex vis (vis ! i) = int i"
  by (simp add: getLayerIndex_def findIndex_distinct)

lemma getNextLayerId_distinct:
  "distinct vis \<Longrightarrow> i < length vis \<Longrightarrow>
   getNextLayerId vis (vis ! i) = (if Suc i < length vis then Some (vis ! Suc i) else None)"
  by (simp add: getNextLayerId_def findIndex_distinct)

lemma connectVertices_returns:
  assumes "\<And>nid. nextLayerId = Some nid \<Longrightarrow> nextComputed nid \<noteq> None"
  shows "connectVertices cpu nextComputed vertices layerIndex nextLayerId numLayers layers m lid
           \<noteq> None"
  using assms
  by (auto simp: connectVertices_def split: option.splits sum.splits list.splits)

lemma computedVerticesFn_returns:
  assumes "\<And>nid. nextLayerId = Some nid \<Longrightarrow> nextComputed nid \<noteq> None"
  shows "computedVerticesFn cpu nextComputed vertices layerIndex nextLayerId numLayers layers m lid
           \<noteq> None"
  using connectVertices_returns [where nextLayerId = nextLayerId and nextComputed = nextComputed
      and cpu = cpu and vertices = vertices and layerIndex = layerIndex and numLayers = numLayers
      and layers = layers and m = m and lid = lid, OF assms]
  by (auto simp: computedVerticesFn_def split: option.splits sum.splits)

text \<open>Claim C7. When no id occurs twice in the visible order, so that the next layer of
  each layer is strictly later, the evaluation of the computed stage of the layer at
  position \<open>i\<close> returns as soon as \<open>length vis - i\<close> nested selector calls are allowed; the
  number of visible layers is always enough.\<close>

theorem computedVertices_terminates:
  assumes "distinct vis" and "i < length vis" and "length vis - i \<le> depth"
  shows "\<exists>r. computedVertices depth cpu transformed vis layers m (vis ! i) = Some r"
  using assms
proof (induction depth arbitrary: i)
  case 0
  then show ?case by simp
next
  case (Suc depth)
  show ?case
  proof (cases "transformed (vis ! i)")
    case (Inl e)
    then show ?thesis by simp
  next
    case (Inr vertices)
    have "\<And>nid. getNextLayerId vis (vis ! i) = Some nid \<Longrightarrow>
            computedVertices depth cpu transformed vis layers m nid \<noteq> None"
    proof -
      fix nid
      assume "getNextLayerId vis (vis ! i) = Some nid"
      then have s: "Suc i < length vis" and n: "nid = vis ! Suc i"
        using Suc.prems by (auto simp: getNextLayerId_distinct split: if_splits)
      have "length vis - Suc i \<le> depth" using Suc.prems by simp
      then show "computedVertices depth cpu transformed vis layers m nid \<noteq> None"
        using Suc.IH [OF Suc.prems(1) s] n by auto
    qed
    then have "computedVerticesFn cpu (computedVertices depth cpu transformed vis layers m)
            vertices (getLayerIndex vis (vis ! i)) (getNextLayerId vis (vis ! i))
            (getNumVisibleLayers vis) layers m (vis ! i) \<noteq> None"
      by (rule computedVerticesFn_returns)
    then show ?thesis using Inr by auto
  qed
qed

text \<open>Claim C2. \<open>A\<close> at position \<open>i\<close> of the visible order and \<open>B\<close> right after it, \<open>B\<close> in
  the store under a truthy id and not dragged, the computed vertices of \<open>B\<close> starting with
  \<open>e\<close>, and \<open>A\<close> connected along the perimeter, with transformed vertices that are not
  empty: the path of \<open>A\<close> before polishing is its transformed vertices, then the perimeter
  point nearest to the last of them, the traced perimeter between the two perimeter
  points, the perimeter point nearest to \<open>e\<close>, and \<open>e\<close>; the stage returns that path
  polished.\<close>

theorem stitch_along_perimeter:
  assumes "distinct vis" and "Suc i < length vis" and "vis ! i = A" and "vis ! Suc i = B"
      and "B \<noteq> []" and "layers B = Some lb" and "\<not> dragging lb"
      and "layers A = Some la" and "connectionMethod la = ''along perimeter''"
      and "transformed A = Inr vertices" and "vertices \<noteq> []"
      and "computedVertices depth cpu transformed vis layers m B = Some (Inr (e # rest))"
      and "nearestPerimeterVertex cpu m (Some (last vertices)) = Inr startPerimeter"
      and "nearestPerimeterVertex cpu m (Some e) = Inr endPerimeter"
  shows "connectVertices cpu (computedVertices depth cpu transformed vis layers m) vertices
           (getLayerIndex vis A) (getNextLayerId vis A) (getNumVisibleLayers vis) layers m A
         = Some (Inr (vertices @ [startPerimeter]
                       @ tracePerimeter cpu m startPerimeter endPerimeter
                       @ [endPerimeter, e]))
       \<and> computedVertices (Suc depth) cpu transformed vis layers m A
         = Some (Inr (polishVertices cpu
                       (vertices @ [startPerimeter]
                          @ tracePerimeter cpu m startPerimeter endPerimeter
                          @ [endPerimeter, e])
                       m (i = 0) False))"
proof -
  have i: "i < length vis" using assms(2) by simp
  have idx: "getLayerIndex vis A = int i"
    using getLayerIndex_distinct [OF assms(1) i] assms(3) by simp
  have nxt: "getNextLayerId vis A = Some B"
    using getNextLayerId_distinct [OF assms(1) i] assms(2,3,4) by simp
  have lt: "int i < int (length vis) - 1" using assms(2) by simp
  have lv: "lastVertex vertices = Some (last vertices)"
    using assms(11) by (simp add: lastVertex_def)
  have c: "connectVertices cpu (computedVertices depth cpu transformed vis layers m) vertices
           (getLayerIndex vis A) (getNextLayerId vis A) (getNumVisibleLayers vis) layers m A
         = Some (Inr (vertices @ [startPerimeter]
                       @ tracePerimeter cpu m startPerimeter endPerimeter
                       @ [endPerimeter, e]))"
    using lt assms(5-9,12-14)
    by (simp add: connectVertices_def idx nxt lv getNumVisibleLayers_def)
  have ne: "int i \<noteq> int (length vis) - 1" using lt by simp
  show ?thesis
    using c ne assms(10)
    by (simp add: computedVerticesFn_def idx getNumVisibleLayers_def)
qed

text \<open>Claim C3. \<open>A\<close> at position \<open>i\<close> of the visible order, with transformed vertices
  \<open>vertices\<close>. When the layer after it is in the store under a truthy id, is not dragged,
  has computed vertices starting with \<open>e\<close>, and \<open>A\<close> is not connected along the perimeter,
  the path of \<open>A\<close> before polishing is \<open>vertices\<close> followed by the single vertex \<open>e\<close>. When
  there is no layer after it, or that layer is not in the store, or is dragged, or has no
  computed vertices, the path is \<open>vertices\<close> alone. In both cases the computed stage of \<open>A\<close>
  returns that path polished.\<close>

theorem stitch_default:
  assumes "distinct vis" and "i < length vis" and "vis ! i = A"
      and "transformed A = Inr vertices"
  shows "(Suc i < length vis \<and> vis ! Suc i \<noteq> [] \<and> layers (vis ! Suc i) = Some lb
          \<and> \<not> dragging lb \<and> layers A = Some la
          \<and> connectionMethod la \<noteq> ''along perimeter''
          \<and> computedVertices depth cpu transformed vis layers m (vis ! Suc i)
              = Some (Inr (e # rest))
          \<longrightarrow> connectVertices cpu (computedVertices depth cpu transformed vis layers m) vertices
                (getLayerIndex vis A) (getNextLayerId vis A) (getNumVisibleLayers vis)
                layers m A
              = Some (Inr (vertices @ [e]))
            \<and> computedVertices (Suc depth) cpu transformed vis layers m A
              = Some (Inr (polishVertices cpu (vertices @ [e]) m (i = 0) False)))
       \<and> (Suc i = length vis \<or> layers (vis ! Suc i) = None
          \<or> (\<exists>l. layers (vis ! Suc i) = Some l \<and> dragging l)
          \<or> computedVertices depth cpu transformed vis layers m (vis ! Suc i) = Some (Inr [])
          \<longrightarrow> connectVertices cpu (computedVertices depth cpu transformed vis layers m) vertices
                (getLayerIndex vis A) (getNextLayerId vis A) (getNumVisibleLayers vis)
                layers m A
              = Some (Inr vertices)
            \<and> computedVertices (Suc depth) cpu transformed vis layers m A
              = Some (Inr (polishVertices cpu vertices m (i = 0) (Suc i = length vis))))"
proof -
  have idx: "getLayerIndex vis A = int i"
    using getLayerIndex_distinct [OF assms(1,2)] assms(3) by simp
  have nxt: "getNextLayerId vis A = (if Suc i < length vis then Some (vis ! Suc i) else None)"
    using getNextLayerId_distinct [OF assms(1,2)] assms(3) by simp
  have last_flag: "(int i = int (length vis) - 1) = (Suc i = length vis)"
    by auto
  have stage: "\<And>vs. connectVertices cpu (computedVertices depth cpu transformed vis layers m)
                vertices (getLayerIndex vis A) (getNextLayerId vis A)
                (getNumVisibleLayers vis) layers m A = Some (Inr vs) \<Longrightarrow>
        computedVertices (Suc depth) cpu transformed vis layers m A
          = Some (Inr (polishVertices cpu vs m (i = 0) (Suc i = length vis)))"
    using assms(4)
    by (simp add: computedVerticesFn_def idx getNumVisibleLayers_def last_flag)
  have appended: "Suc i < length vis \<and> vis ! Suc i \<noteq> [] \<and> layers (vis ! Suc i) = Some lb
          \<and> \<not> dragging lb \<and> layers A = Some la
          \<and> connectionMethod la \<noteq> ''along perimeter''
          \<and> computedVertices depth cpu transformed vis layers m (vis ! Suc i)
              = Some (Inr (e # rest))
          \<longrightarrow> connectVertices cpu (computedVertices depth cpu transformed vis layers m) vertices
                (getLayerIndex vis A) (getNextLayerId vis A) (getNumVisibleLayers vis)
                layers m A
              = Some (Inr (vertices @ [e]))"
    using assms(2)
    by (auto simp: connectVertices_def idx nxt getNumVisibleLayers_def)
  have unchanged: "Suc i = length vis \<or> layers (vis ! Suc i) = None
          \<or> (\<exists>l. layers (vis ! Suc i) = Some l \<and> dragging l)
          \<or> computedVertices depth cpu transformed vis layers m (vis ! Suc i) = Some (Inr [])
          \<longrightarrow> connectVertices cpu (computedVertices depth cpu transformed vis layers m) vertices
                (getLayerIndex vis A) (getNextLayerId vis A) (getNumVisibleLayers vis)
                layers m A
              = Some (Inr vertices)"
    using assms(2)
    by (auto simp: connectVertices_def idx nxt getNumVisibleLayers_def
             split: option.splits sum.splits list.splits)
  have stage_appended: "Suc i < length vis \<and> vis ! Suc i \<noteq> [] \<and> layers (vis ! Suc i) = Some lb
          \<and> \<not> dragging lb \<and> layers A = Some la
          \<and> connectionMethod la \<noteq> ''along perimeter''
          \<and> computedVertices depth cpu transformed vis layers m (vis ! Suc i)
              = Some (Inr (e # rest))
          \<longrightarrow> computedVertices (Suc depth) cpu transformed vis layers m A
              = Some (Inr (polishVertices cpu (vertices @ [e]) m (i = 0) False))"
  proof
    assume h: "Suc i < length vis \<and> vis ! Suc i \<noteq> [] \<and> layers (vis ! Suc i) = Some lb
          \<and> \<not> dragging lb \<and> layers A = Some la
          \<and> connectionMethod la \<noteq> ''along perimeter''
          \<and> computedVertices depth cpu transformed vis layers m (vis ! Suc i)
              = Some (Inr (e # rest))"
    have ne: "Suc i \<noteq> length vis" using h by simp
    have c: "connectVertices cpu (computedVertices depth cpu transformed vis layers m) vertices
                (getLayerIndex vis A) (getNextLayerId vis A) (getNumVisibleLayers vis)
                layers m A
              = Some (Inr (vertices @ [e]))"
      using appended h by (rule mp)
    show "computedVertices (Suc depth) cpu transformed vis layers m A
              = Some (Inr (polishVertices cpu (vertices @ [e]) m (i = 0) False))"
      using stage [OF c] ne by simp
  qed
  have stage_unchanged: "Suc i = length vis \<or> layers (vis ! Suc i) = None
          \<or> (\<exists>l. layers (vis ! Suc i) = Some l \<and> dragging l)
          \<or> computedVertices depth cpu transformed vis layers m (vis ! Suc i) = Some (Inr [])
          \<longrightarrow> computedVertices (Suc depth) cpu transformed vis layers m A
              = Some (Inr (polishVertices cpu vertices m (i = 0) (Suc i = length vis)))"
  proof
    assume h: "Suc i = length vis \<or> layers (vis ! Suc i) = None
          \<or> (\<exists>l. layers (vis ! Suc i) = Some l \<and> dragging l)
          \<or> computedVertices depth cpu transformed vis layers m (vis ! Suc i) = Some (Inr [])"
    have c: "connectVertices cpu (computedVertices depth cpu transformed vis layers m) vertices
                (getLayerIndex vis A) (getNextLayerId vis A) (getNumVisibleLayers vis)
                layers m A
              = Some (Inr vertices)"
      using unchanged h by (rule mp)
    show "computedVertices (Suc depth) cpu transformed vis layers m A
              = Some (Inr (polishVertices cpu vertices m (i = 0) (Suc i = length vis)))"
      using c by (rule stage)
  qed
  show ?thesis
    using appended stage_appended unchanged stage_unchanged by blast
qed

lemmas computed_defs = computedVerticesFn_def connectVertices_def getLayerIndex_def
  getNextLayerId_def getNumVisibleLayers_def lineComputer_def squareAndPoint_def
  zigzagAndPoint_def twoLayers_def twoLayersPerimeter_def baseLayer_def lastVertex_def

lemma point_computed:
  "computedVertices (Suc 0) lineComputer squareAndPoint [''a'', ''b''] twoLayers 9 ''b''
     = Some (Inr [(5, 5), (0, 0)])"
  by (simp add: computed_defs)

lemma point_computed_perimeter:
  "computedVertices (Suc 0) lineComputer zigzagAndPoint [''a'', ''b''] twoLayersPerimeter 9 ''b''
     = Some (Inr [(5, 5), (0, 0)])"
  by (simp add: computed_defs)

theorem computedVertices_terminates_witness:
  "\<exists>r. computedVertices 2 lineComputer squareAndPoint [''a'', ''b''] twoLayers 9
         ([''a'', ''b''] ! 0) = Some r"
  using computedVertices_terminates [of "[''a'', ''b'']" 0 2 lineComputer squareAndPoint twoLayers 9]
  by simp

theorem stitch_along_perimeter_witness:
  "connectVertices lineComputer
       (computedVertices (Suc 0) lineComputer zigzagAndPoint [''a'', ''b''] twoLayersPerimeter 9)
       [(0, 0), (1, 2), (2, 1), (3, 4)]
       (getLayerIndex [''a'', ''b''] ''a'') (getNextLayerId [''a'', ''b''] ''a'')
       (getNumVisibleLayers [''a'', ''b'']) twoLayersPerimeter 9 ''a''
     = Some (Inr [(0, 0), (1, 2), (2, 1), (3, 4), (3, 9), (4, 9), (5, 9), (5, 5)])
   \<and> computedVertices (Suc (Suc 0)) lineComputer zigzagAndPoint [''a'', ''b'']
       twoLayersPerimeter 9 ''a''
     = Some (Inr [(0, 0), (0, 0), (1, 2), (2, 1), (3, 4), (3, 9), (4, 9), (5, 9), (5, 5)])"
proof -
  have h1: "distinct [''a'', ''b'']" by simp
  have h2: "Suc 0 < length [''a'', ''b'']" by simp
  have h3: "[''a'', ''b''] ! 0 = ''a''" by simp
  have h4: "[''a'', ''b''] ! Suc 0 = ''b''" by simp
  have h5: "''b'' \<noteq> []" by simp
  have h6: "twoLayersPerimeter ''b'' = Some baseLayer" by (simp add: twoLayersPerimeter_def)
  have h7: "\<not> dragging baseLayer" by (simp add: baseLayer_def)
  have h8: "twoLayersPerimeter ''a'' = Some (baseLayer\<lparr>connectionMethod := ''along perimeter''\<rparr>)"
    by (simp add: twoLayersPerimeter_def)
  have h9: "connectionMethod (baseLayer\<lparr>connectionMethod := ''along perimeter''\<rparr>)
              = ''along perimeter''" by simp
  have h10: "zigzagAndPoint ''a'' = Inr [(0, 0), (1, 2), (2, 1), (3, 4)]"
    by (simp add: zigzagAndPoint_def)
  have h11: "[(0, 0), (1, 2), (2, 1), (3, 4)] \<noteq> ([] :: vertex list)" by simp
  have h13: "nearestPerimeterVertex lineComputer 9 (Some (last [(0, 0), (1, 2), (2, 1), (3, 4)]))
              = Inr (3, 9)" by (simp add: lineComputer_def)
  have h14: "nearestPerimeterVertex lineComputer 9 (Some (5, 5)) = Inr (5, 9)"
    by (simp add: lineComputer_def)
  show ?thesis
    using stitch_along_perimeter [OF h1 h2 h3 h4 h5 h6 h7 h8 h9 h10 h11
            point_computed_perimeter h13 h14]
    by (simp add: lineComputer_def)
qed

theorem stitch_default_witness:
  "connectVertices lineComputer
       (computedVertices (Suc 0) lineComputer squareAndPoint [''a'', ''b''] twoLayers 9)
       [(0, 0), (1, 0), (1, 1), (0, 1)]
       (getLayerIndex [''a'', ''b''] ''a'') (getNextLayerId [''a'', ''b''] ''a'')
       (getNumVisibleLayers [''a'', ''b'']) twoLayers 9 ''a''
     = Some (Inr [(0, 0), (1, 0), (1, 1), (0, 1), (5, 5)])
   \<and> computedVertices (Suc (Suc 0)) lineComputer squareAndPoint [''a'', ''b''] twoLayers 9 ''a''
     = Some (Inr [(0, 0), (0, 0), (1, 0), (1, 1), (0, 1), (5, 5)])
   \<and> connectVertices lineComputer
       (computedVertices 0 lineComputer squareAndPoint [''a'', ''b''] twoLayers 9)
       [(5, 5)]
       (getLayerIndex [''a'', ''b''] ''b'') (getNextLayerId [''a'', ''b''] ''b'')
       (getNumVisibleLayers [''a'', ''b'']) twoLayers 9 ''b''
     = Some (Inr [(5, 5)])
   \<and> computedVertices (Suc 0) lineComputer squareAndPoint [''a'', ''b''] twoLayers 9 ''b''
     = Some (Inr [(5, 5), (0, 0)])"
proof -
  have d: "distinct [''a'', ''b'']" by simp
  have a: "[''a'', ''b''] ! 0 = ''a''" by simp
  have b: "[''a'', ''b''] ! Suc 0 = ''b''" by simp
  have ta: "squareAndPoint ''a'' = Inr [(0, 0), (1, 0), (1, 1), (0, 1)]"
    by (simp add: squareAndPoint_def)
  have tb: "squareAndPoint ''b'' = Inr [(5, 5)]"
    by (simp add: squareAndPoint_def)
  have first: "connectVertices lineComputer
       (computedVertices (Suc 0) lineComputer squareAndPoint [''a'', ''b''] twoLayers 9)
       [(0, 0), (1, 0), (1, 1), (0, 1)]
       (getLayerIndex [''a'', ''b''] ''a'') (getNextLayerId [''a'', ''b''] ''a'')
       (getNumVisibleLayers [''a'', ''b'']) twoLayers 9 ''a''
     = Some (Inr ([(0, 0), (1, 0), (1, 1), (0, 1)] @ [(5, 5)]))
   \<and> computedVertices (Suc (Suc 0)) lineComputer squareAndPoint [''a'', ''b''] twoLayers 9 ''a''
     = Some (Inr (polishVertices lineComputer ([(0, 0), (1, 0), (1, 1), (0, 1)] @ [(5, 5)]) 9
                    ((0::nat) = 0) False))"
    using stitch_default [where vis = "[''a'', ''b'']" and i = 0 and A = "''a''"
            and lb = baseLayer and la = baseLayer and layers = twoLayers and depth = "Suc 0"
            and cpu = lineComputer and transformed = squareAndPoint and m = 9 and e = "(5, 5)"
            and rest = "[(0, 0)]" and vertices = "[(0, 0), (1, 0), (1, 1), (0, 1)]"]
          d a ta point_computed
    by (simp add: twoLayers_def baseLayer_def)
  have second: "connectVertices lineComputer
       (computedVertices 0 lineComputer squareAndPoint [''a'', ''b''] twoLayers 9)
       [(5, 5)]
       (getLayerIndex [''a'', ''b''] ''b'') (getNextLayerId [''a'', ''b''] ''b'')
       (getNumVisibleLayers [''a'', ''b'']) twoLayers 9 ''b''
     = Some (Inr [(5, 5)])
   \<and> computedVertices (Suc 0) lineComputer squareAndPoint [''a'', ''b''] twoLayers 9 ''b''
     = Some (Inr (polishVertices lineComputer [(5, 5)] 9 (Suc 0 = 0)
                    (Suc (Suc 0) = length [''a'', ''b''])))"
    using stitch_default [where vis = "[''a'', ''b'']" and i = "Suc 0" and A = "''b''"
            and lb = baseLayer and la = baseLayer and layers = twoLayers and depth = 0
            and cpu = lineComputer and transformed = squareAndPoint and m = 9 and e = "(5, 5)"
            and rest = "[]" and vertices = "[(5, 5)]"]
          d b tb
    by simp
  show ?thesis using first second by (simp add: lineComputer_def)
qed

section \<open>Properties of the aggregate views\<close>

lemma offsetsLoop_keeps:
  "offsetsLoop computed ids offsets offset = Inr offs \<Longrightarrow> lid \<notin> set ids \<Longrightarrow>
   offs lid = offsets lid"
  by (induction ids arbitrary: offsets offset) (auto split: sum.splits)

lemma offsetsLoop_head:
  "offsetsLoop computed (lid # ids) offsets offset = Inr offs \<Longrightarrow> lid \<notin> set ids \<Longrightarrow>
   offs lid = Some offset"
  by (auto split: sum.splits dest: offsetsLoop_keeps)

lemma offsetsLoop_consecutive:
  assumes "offsetsLoop computed ids offsets offset = Inr offs"
      and "distinct ids" and "Suc i < length ids"
  shows "\<exists>vertices k. computed (ids ! i) = Inr vertices \<and> offs (ids ! i) = Some k
           \<and> offs (ids ! Suc i) = Some (k + length vertices + 1)"
  using assms
proof (induction ids arbitrary: offsets offset i)
  case Nil
  then show ?case by simp
next
  case (Cons lid ids)
  from Cons.prems(1) obtain vertices where
    v: "computed lid = Inr vertices" and
    rest: "offsetsLoop computed ids (offsets(lid \<mapsto> offset)) (offset + length vertices + 1) = Inr offs"
    by (auto split: sum.splits)
  show ?case
  proof (cases i)
    case 0
    have here: "offs lid = Some offset"
      using offsetsLoop_head [OF Cons.prems(1)] Cons.prems(2) by simp
    obtain b bs where ids: "ids = b # bs" using Cons.prems(3) 0 by (cases ids) auto
    have "offs b = Some (offset + length vertices + 1)"
      using offsetsLoop_head [OF rest [unfolded ids]] Cons.prems(2) unfolding ids by simp
    then show ?thesis using 0 v here ids by simp
  next
    case (Suc j)
    then show ?thesis
      using Cons.IH [OF rest, of j] Cons.prems(2,3) by simp
  qed
qed

text \<open>Claim C4. For a visible order without repeated ids whose computed stages all
  return, the offsets give the first visible layer the offset 0, and the offset of each
  layer that follows another is the offset of that one plus the number of its computed
  vertices plus 1.\<close>

theorem vertex_offsets:
  assumes "distinct vis" and "getVertexOffsets computed vis = Inr offs"
  shows "(vis \<noteq> [] \<longrightarrow> offs (hd vis) = Some 0)
       \<and> (\<forall>i. Suc i < length vis \<longrightarrow>
            (\<exists>vertices k. computed (vis ! i) = Inr vertices \<and> offs (vis ! i) = Some k
               \<and> offs (vis ! Suc i) = Some (k + length vertices + 1)))"
proof -
  have first: "vis \<noteq> [] \<longrightarrow> offs (hd vis) = Some 0"
  proof
    assume "vis \<noteq> []"
    then obtain a as where vis: "vis = a # as" by (cases vis) auto
    then show "offs (hd vis) = Some 0"
      using offsetsLoop_head [of computed a as Map.empty 0 offs] assms
      unfolding getVertexOffsets_def vis by simp
  qed
  have rest: "\<forall>i. Suc i < length vis \<longrightarrow>
            (\<exists>vertices k. computed (vis ! i) = Inr vertices \<and> offs (vis ! i) = Some k
               \<and> offs (vis ! Suc i) = Some (k + length vertices + 1))"
    using offsetsLoop_consecutive [OF assms(2) [unfolded getVertexOffsets_def] assms(1)]
    by blast
  show ?thesis using first rest by blast
qed

theorem vertex_offsets_witness:
  "\<exists>offs. getVertexOffsets computedAB [''a'', ''b''] = Inr offs
      \<and> offs ''a'' = Some 0 \<and> offs ''b'' = Some 6"
proof -
  have d: "distinct [''a'', ''b'']" by simp
  have run: "getVertexOffsets computedAB [''a'', ''b''] = Inr [''a'' \<mapsto> 0, ''b'' \<mapsto> 6]"
    by (simp add: getVertexOffsets_def computedAB_def eval_nat_numeral)
  have a: "computedAB ''a'' = Inr [(0, 0), (1, 0), (1, 1), (0, 1), (5, 5)]"
    by (simp add: computedAB_def)
  from vertex_offsets [OF d run]
  have "[''a'' \<mapsto> 0, ''b'' \<mapsto> 6::nat] (hd [''a'', ''b'']) = Some 0
      \<and> (\<exists>vertices k. computedAB ([''a'', ''b''] ! 0) = Inr vertices
            \<and> [''a'' \<mapsto> 0, ''b'' \<mapsto> 6::nat] ([''a'', ''b''] ! 0) = Some k
            \<and> [''a'' \<mapsto> 0, ''b'' \<mapsto> 6::nat] ([''a'', ''b''] ! Suc 0) = Some (k + length vertices + 1))"
    by simp
  then show ?thesis using run a by auto
qed

lemma dom_colorsLoop:
  "dom (colorsLoop darkenHex start end i colors) = dom colors \<union> {start..i}"
proof (induction darkenHex start "end" i colors rule: colorsLoop.induct)
  case (1 darkenHex start e i colors)
  show ?case
  proof (cases "start \<le> i")
    case True
    have step: "colorsLoop darkenHex start e i colors
                = colorsLoop darkenHex start e (i - 1)
                    (colors(i \<mapsto> darkenHex (darkenAmount start e i)))"
      using True by (subst colorsLoop.simps) simp
    have ih: "dom (colorsLoop darkenHex start e (i - 1)
                    (colors(i \<mapsto> darkenHex (darkenAmount start e i))))
                = dom (colors(i \<mapsto> darkenHex (darkenAmount start e i))) \<union> {start..i - 1}"
      by (rule 1 [OF True])
    have "dom (colors(i \<mapsto> darkenHex (darkenAmount start e i))) \<union> {start..i - 1}
            = dom colors \<union> {start..i}"
      using True by auto
    then show ?thesis by (simp only: step ih)
  next
    case False
    then show ?thesis by (subst colorsLoop.simps) simp
  qed
qed

text \<open>Claim C8, as stated, fails: for slider value 0 and a layer of four vertices at offset
  2, the loop runs from index 6 down to index 2, so the map has the five keys 2 to 6.\<close>

theorem slider_colors_counterexample:
  "dom (getSliderColors zeroBounds yellowHex tenPoints 0 fourPoints [''a'' \<mapsto> 2] ''a'')
     = {2, 3, 4, 5, 6}
   \<and> dom (getSliderColors zeroBounds yellowHex tenPoints 0 fourPoints [''a'' \<mapsto> 2] ''a'')
     \<noteq> {2, 3, 4, 5}"
proof -
  have keys: "dom (getSliderColors zeroBounds yellowHex tenPoints 0 fourPoints [''a'' \<mapsto> 2] ''a'')
          = {2, 3, 4, 5, 6}"
    by (simp add: getSliderColors_def fourPoints_def colorsLoop.simps)
  have "(6::int) \<in> {2, 3, 4, 5, 6}" and "(6::int) \<notin> {2, 3, 4, 5}" by simp_all
  then have "{2, 3, 4, 5, 6} \<noteq> {2, 3, 4, 5::int}" by blast
  then show ?thesis by (simp only: keys) simp
qed

text \<open>Claim C8, amended. For a slider value not above 0 and a layer at offset \<open>start\<close> with
  \<open>n\<close> preview vertices, the keys of the gradient map are the indices from \<open>start\<close> to
  \<open>start + n\<close>, both included: \<open>n + 1\<close> keys.\<close>

theorem slider_colors_keys:
  assumes "sliderValue \<le> 0" and "offsets lid = Some start"
  shows "dom (getSliderColors getSliderBounds darkenHex vertices sliderValue layerVertices
                offsets lid)
           = {int start .. int start + int (length layerVertices)}
       \<and> card (dom (getSliderColors getSliderBounds darkenHex vertices sliderValue layerVertices
                offsets lid))
           = length layerVertices + 1"
  using assms by (simp add: getSliderColors_def dom_colorsLoop)

theorem slider_colors_keys_witness:
  "dom (getSliderColors zeroBounds yellowHex tenPoints 0 fourPoints [''a'' \<mapsto> 2] ''a'')
     = {2 .. 6}
   \<and> card (dom (getSliderColors zeroBounds yellowHex tenPoints 0 fourPoints [''a'' \<mapsto> 2] ''a''))
     = 5"
  using slider_colors_keys [of 0 "[''a'' \<mapsto> 2]" "''a''" 2 zeroBounds yellowHex tenPoints fourPoints]
  by (simp add: fourPoints_def)

section \<open>Properties of the preview stage\<close>

text \<open>Claim C10. The preview of a layer maps each vertex of the transformed-stage output
  when the layer is dragged, and of the computed-stage output otherwise, by the offset by
  \<open>(-offsetX, -offsetY)\<close>, the rotation by the layer's rotation, and the offset by the Konva
  delta. The preview of a dragged layer is the same whatever the computed stage returned,
  so it holds nothing the stitch or the polish added.\<close>

theorem preview_vertices:
  assumes "layers lid = Some l"
  shows "getPreviewVertices offs rot layers (Inr transformedVs) (Inr computedVs) lid
         = Inr (map (\<lambda>vertex.
                  offs (rot (offs vertex (- offsetX l) (- offsetY l)) (rotation l))
                    (((if autosize l then 5 else 1) - 1) / 2 * startingWidth l)
                    (- (((if autosize l then 5 else 1) - 1) / 2 * startingHeight l)))
                (if dragging l then transformedVs else computedVs))
       \<and> (dragging l \<longrightarrow>
            getPreviewVertices offs rot layers (Inr transformedVs) (Inr computedVs) lid
            = getPreviewVertices offs rot layers (Inr transformedVs) (Inr otherVs) lid)"
  using assms
  by (simp add: getPreviewVertices_def previewVerticesFn_def previewVertex_def
        konvaDeltaX_def konvaDeltaY_def konvaScale_def)

theorem preview_vertices_witness:
  "getPreviewVertices offsetVertex rotateVertex
       [''a'' \<mapsto> baseLayer\<lparr>dragging := True, autosize := True\<rparr>]
       (Inr [(1, 2), (2, 2)]) (Inr [(1, 2), (2, 2), (5, 5)]) ''a''
     = Inr [(20, - 40), (21, - 40)]
   \<and> getPreviewVertices offsetVertex rotateVertex
       [''a'' \<mapsto> baseLayer\<lparr>dragging := True, autosize := True\<rparr>]
       (Inr [(1, 2), (2, 2)]) (Inr [(1, 2), (2, 2), (5, 5)]) ''a''
     = getPreviewVertices offsetVertex rotateVertex
       [''a'' \<mapsto> baseLayer\<lparr>dragging := True, autosize := True\<rparr>]
       (Inr [(1, 2), (2, 2)]) (Inr []) ''a''"
proof -
  have l: "[''a'' \<mapsto> baseLayer\<lparr>dragging := True, autosize := True\<rparr>] ''a''
             = Some (baseLayer\<lparr>dragging := True, autosize := True\<rparr>)"
    by simp
  have d: "dragging (baseLayer\<lparr>dragging := True, autosize := True\<rparr>)"
    by simp
  note t = preview_vertices [where layers = "[''a'' \<mapsto> baseLayer\<lparr>dragging := True, autosize := True\<rparr>]"
             and lid = "''a''" and l = "baseLayer\<lparr>dragging := True, autosize := True\<rparr>"
             and offs = offsetVertex and rot = rotateVertex and transformedVs = "[(1, 2), (2, 2)]"
             and computedVs = "[(1, 2), (2, 2), (5, 5)]" and otherVs = "[]", OF l]
  have c1: "getPreviewVertices offsetVertex rotateVertex
       [''a'' \<mapsto> baseLayer\<lparr>dragging := True, autosize := True\<rparr>]
       (Inr [(1, 2), (2, 2)]) (Inr [(1, 2), (2, 2), (5, 5)]) ''a''
     = Inr [(20, - 40), (21, - 40)]"
    using t [THEN conjunct1]
    by (simp add: baseLayer_def offsetVertex_def rotateVertex_def)
  have c2: "getPreviewVertices offsetVertex rotateVertex
       [''a'' \<mapsto> baseLayer\<lparr>dragging := True, autosize := True\<rparr>]
       (Inr [(1, 2), (2, 2)]) (Inr [(1, 2), (2, 2), (5, 5)]) ''a''
     = getPreviewVertices offsetVertex rotateVertex
       [''a'' \<mapsto> baseLayer\<lparr>dragging := True, autosize := True\<rparr>]
       (Inr [(1, 2), (2, 2)]) (Inr []) ''a''"
    using t [THEN conjunct2] d by (rule mp)
  show ?thesis using c1 c2 by (rule conjI)
qed

end
